theory Spec2Isabelle
  imports Main "HOL-Library.Sublist"
begin

section \<open>Python strings\<close>

text \<open>
  A Python \<open>str\<close> is a sequence of Unicode code points, so it is modelled as a list of
  natural numbers (the code points); an Isabelle \<open>char\<close> only has 256 values and could
  not hold the non-ASCII titles the program has to deal with. \<open>py\<close> turns an ASCII
  literal into such a string.
\<close>

type_synonym pystr = "nat list"

definition py :: "string \<Rightarrow> pystr" where
  "py s = map of_char s"

text \<open>
  \<open>str.strip()\<close> without argument removes leading and trailing whitespace, which for
  a \<open>str\<close> is what CPython's \<open>Py_UNICODE_ISSPACE\<close> accepts: tab to carriage return,
  the four separators U+001C to U+001F, the space, and the non-ASCII spaces listed below.
\<close>

definition isspace :: "nat \<Rightarrow> bool" where
  "isspace c = ((9 \<le> c \<and> c \<le> 13) \<or> (28 \<le> c \<and> c \<le> 32) \<or> c = 133 \<or> c = 160
     \<or> c = 5760 \<or> (8192 \<le> c \<and> c \<le> 8202) \<or> c = 8232 \<or> c = 8233 \<or> c = 8239
     \<or> c = 8287 \<or> c = 12288)"

definition lstrip :: "pystr \<Rightarrow> pystr" where
  "lstrip s = dropWhile isspace s"

definition rstrip :: "pystr \<Rightarrow> pystr" where
  "rstrip s = rev (dropWhile isspace (rev s))"

definition strip :: "pystr \<Rightarrow> pystr" where
  "strip s = rstrip (lstrip s)"

text \<open>\<open>s.replace(a, b)\<close> for one-character strings \<open>a\<close> and \<open>b\<close>.\<close>

definition replace_char :: "nat \<Rightarrow> nat \<Rightarrow> pystr \<Rightarrow> pystr" where
  "replace_char a b s = map (\<lambda>c. if c = a then b else c) s"

text \<open>\<open>re.sub(r'[^\x00-\x7F]', '', s)\<close>: every code point above U+007F is deleted.\<close>

definition re_sub_non_ascii :: "pystr \<Rightarrow> pystr" where
  "re_sub_non_ascii s = filter (\<lambda>c. c \<le> 127) s"

text \<open>\<open>str(n)\<close> and \<open>"{}".format(n)\<close> for an integer: its decimal digits.\<close>

fun str_nat :: "nat \<Rightarrow> pystr" where
  "str_nat n = (if n < 10 then [48 + n] else str_nat (n div 10) @ [48 + n mod 10])"

declare str_nat.simps [simp del]

definition str_int :: "int \<Rightarrow> pystr" where
  "str_int i = (if i < 0 then 45 # str_nat (nat (- i)) else str_nat (nat i))"

text \<open>Zero padding to a width, as the numeric \<open>strftime\<close> directives do.\<close>

definition zfill :: "nat \<Rightarrow> pystr \<Rightarrow> pystr" where
  "zfill w s = replicate (w - length s) 48 @ s"

section \<open>Dates\<close>

text \<open>
  The fields of a \<open>datetime\<close> that the two format strings of the program read. The
  values come from \<open>strptime\<close> with a format that has no seconds.
\<close>

record datetime =
  year :: nat
  month :: nat
  day :: nat
  hour :: nat
  minute :: nat


definition month_name :: "nat \<Rightarrow> pystr" where
  "month_name m =
     (if m = 1 then py ''January'' else if m = 2 then py ''February''
      else if m = 3 then py ''March'' else if m = 4 then py ''April''
      else if m = 5 then py ''May'' else if m = 6 then py ''June''
      else if m = 7 then py ''July'' else if m = 8 then py ''August''
      else if m = 9 then py ''September'' else if m = 10 then py ''October''
      else if m = 11 then py ''November'' else if m = 12 then py ''December''
      else [])"

definition hour12 :: "nat \<Rightarrow> nat" where
  "hour12 h = (if h mod 12 = 0 then 12 else h mod 12)"

text \<open>
  One \<open>strftime\<close> directive (the character after the percent sign), in the C locale:
  \<open>%Y %m %d %H %M %I %p %B\<close> are the ones the program uses. The year is padded with
  zeros to four digits, as the Python documentation gives it (\<open>0001\<close>, ..., \<open>9999\<close>).
  \<open>None\<close> is a directive this model does not know.
\<close>

definition directive :: "datetime \<Rightarrow> nat \<Rightarrow> pystr option" where
  "directive dt d =
     (if d = of_char CHR ''Y'' then Some (zfill 4 (str_nat (year dt)))
      else if d = of_char CHR ''m'' then Some (zfill 2 (str_nat (month dt)))
      else if d = of_char CHR ''d'' then Some (zfill 2 (str_nat (day dt)))
      else if d = of_char CHR ''H'' then Some (zfill 2 (str_nat (hour dt)))
      else if d = of_char CHR ''M'' then Some (zfill 2 (str_nat (minute dt)))
      else if d = of_char CHR ''I'' then Some (zfill 2 (str_nat (hour12 (hour dt))))
      else if d = of_char CHR ''p'' then Some (if hour dt < 12 then py ''AM'' else py ''PM'')
      else if d = of_char CHR ''B'' then Some (month_name (month dt))
      else None)"

text \<open>
  \<open>dt.strftime(fmt)\<close>: the format is copied, each directive replaced by its text.
  \<open>%-d\<close> is the day of the month without padding (the dash flag of the C library).
  A percent sign that starts no known directive is copied as it is.
\<close>

fun strftime :: "datetime \<Rightarrow> pystr \<Rightarrow> pystr" where
  "strftime dt [] = []"
| "strftime dt [c] = [c]"
| "strftime dt (c # d # cs) =
     (if c = of_char CHR ''%'' then
        (if d = of_char CHR ''-'' \<and> cs \<noteq> [] \<and> hd cs = of_char CHR ''d''
         then str_nat (day dt) @ strftime dt (tl cs)
         else (case directive dt d of
                 Some s \<Rightarrow> s @ strftime dt cs
               | None \<Rightarrow> c # strftime dt (d # cs)))
      else c # strftime dt (d # cs))"

section \<open>Metadata and file names\<close>

text \<open>The dictionary \<open>get_metadata\<close> returns always has these four keys.\<close>

record metadata =
  title :: pystr
  description :: pystr
  artist :: pystr
  date :: datetime


definition get_file_name :: "metadata \<Rightarrow> int \<Rightarrow> bool \<Rightarrow> pystr" where
  "get_file_name metadata index video =
     (let file_name = strftime (date metadata) (py ''./images/%Y-%m-%d-%H-%M-'');
          file_name = file_name
            @ replace_char 32 45 (strip (re_sub_non_ascii (title metadata)));
          file_name = file_name @ (if index > 0 then py ''-'' @ str_int index else []);
          file_name = file_name @ (if video then py ''.mp4'' else py ''.jpeg'')
      in file_name)"


definition capture_observation_info :: "metadata \<Rightarrow> pystr" where
  "capture_observation_info metadata =
     (let md = py ''## '' @ title metadata @ py ''\<newline>\<newline>'';
          md = md @ py ''### '' @ artist metadata @ py '', ''
                 @ strftime (date metadata) (py ''%-d %B %Y %I:%M%p'') @ py ''\<newline>\<newline>'';
          md = md @ description metadata @ py ''\<newline>\<newline>''
      in md)"

section \<open>Searching in strings\<close>

text \<open>
  The text that follows the leftmost occurrence of \<open>pat\<close> in a string, if there is one.
  \<open>pat in s\<close> of Python is whether there is one.
\<close>

fun find_after :: "pystr \<Rightarrow> pystr \<Rightarrow> pystr option" where
  "find_after pat [] = (if pat = [] then Some [] else None)"
| "find_after pat (c # cs) =
     (if prefix pat (c # cs) then Some (drop (length pat) (c # cs)) else find_after pat cs)"

definition contains :: "pystr \<Rightarrow> pystr \<Rightarrow> bool" where
  "contains pat s = (find_after pat s \<noteq> None)"

text \<open>The text before and the text after the last occurrence of \<open>pat\<close> in a string.\<close>

fun split_last :: "pystr \<Rightarrow> pystr \<Rightarrow> (pystr \<times> pystr) option" where
  "split_last pat [] = (if pat = [] then Some ([], []) else None)"
| "split_last pat (c # cs) =
     (case split_last pat cs of
        Some (a, b) \<Rightarrow> Some (c # a, b)
      | None \<Rightarrow> if prefix pat (c # cs) then Some ([], drop (length pat) (c # cs)) else None)"

text \<open>
  \<open>re.search(r'Authored by (.*) added (.*)', s)\<close>, returning the two groups. The search
  tries the start positions from left to right. At a position where the literal
  \<open>Authored by \<close> stands, the first group is greedy and the dot does not match a line
  feed, so the groups are split at the last \<open> added \<close> of the rest of that line; when
  the line has none, the search goes on with the next position.
\<close>

fun re_search_authored :: "pystr \<Rightarrow> (pystr \<times> pystr) option" where
  "re_search_authored [] = None"
| "re_search_authored (c # cs) =
     (if prefix (py ''Authored by '') (c # cs) then
        (case split_last (py '' added '')
                (takeWhile (\<lambda>x. x \<noteq> 10) (drop (length (py ''Authored by '')) (c # cs))) of
           Some g \<Rightarrow> Some g
         | None \<Rightarrow> re_search_authored cs)
      else re_search_authored cs)"

section \<open>Pages, the environment and the effects of a run\<close>

text \<open>
  A fetched page is only ever queried through six selectors, so the parsed document is
  modelled by what they return: the text of every \<open>.alert\<close> element; the text of the
  first \<open>h1\<close>, of the first \<open>.page-note p\<close> and of the first \<open>.obs-metadata p\<close> (\<open>None\<close>
  when \<open>select_one\<close> finds no element); for every \<open>img\<close> of the gallery and every video
  source its \<open>src\<close> attribute (\<open>None\<close> when the element has none); and the \<open>href\<close> of the
  first \<open>li.previous a\<close> (outer \<open>None\<close>: no such element, \<open>Some None\<close>: an element
  without that attribute).
\<close>

record page_document =
  alert_texts :: "pystr list"
  h1_text :: "pystr option"
  page_note_text :: "pystr option"
  obs_metadata_text :: "pystr option"
  gallery_imgs :: "pystr option list"
  gallery_videos :: "pystr option list"
  previous_href :: "pystr option option"

text \<open>The exceptions that can leave a function of the program.\<close>

datatype error =
    LoggedOutException
  | AttributeError
  | KeyError
  | ValueError
  | RuntimeError pystr
  | RequestException
  | OSError

text \<open>
  What lies outside the program. \<open>getenv\<close> is the process environment after
  \<open>load_dotenv\<close>. \<open>http_get_doc\<close> answers a page request sent with the session cookie
  (\<open>None\<close>: \<open>requests.get\<close> or \<open>raise_for_status\<close> raised) and \<open>http_get_content\<close>
  a media request (\<open>None\<close>: \<open>requests.get\<close> raised); the remote site does not change
  during a run. \<open>strptime\<close> is \<open>datetime.strptime\<close> with the format
  \<open>'%d %b %Y %I:%M %p'\<close> (\<open>None\<close>: \<open>ValueError\<close>). \<open>re_digit\<close> is the class \<open>\d\<close> of
  the \<open>re\<close> module, the decimal digits of the interpreter's Unicode tables.
  \<open>path_writable\<close> says whether creating the directory of a path and writing the file
  succeed (otherwise \<open>OSError\<close>).
\<close>

record env =
  getenv :: "pystr \<Rightarrow> pystr option"
  http_get_doc :: "pystr \<Rightarrow> page_document option"
  http_get_content :: "pystr \<Rightarrow> nat list option"
  strptime :: "pystr \<Rightarrow> datetime option"
  re_digit :: "nat \<Rightarrow> bool"
  path_writable :: "pystr \<Rightarrow> bool"

text \<open>
  The effects of a run, in the order they happen: a line printed, a page requested, a
  media file requested, a file written. The program never reads back what it wrote, so
  every function returns the effects it caused next to its result.
\<close>

datatype content = Bytes "nat list" | Text pystr

datatype event = Print pystr | GetDoc pystr | GetAsset pystr | Write pystr content

text \<open>The configuration; the timeout is in seconds.\<close>

record tapestry_config =
  cookie_value :: pystr
  first_observation_id :: pystr
  name :: pystr
  school :: pystr
  base_url :: pystr
  timeout :: nat

definition get_required_env_value :: "env \<Rightarrow> pystr \<Rightarrow> error + pystr" where
  "get_required_env_value env env_var_name =
     (case getenv env env_var_name of
        None \<Rightarrow> Inl (RuntimeError (py ''Environment variable '' @ [39] @ env_var_name @ [39]
                        @ py '' is required''))
      | Some v \<Rightarrow>
          if v = [] then Inl (RuntimeError (py ''Environment variable '' @ [39] @ env_var_name
                        @ [39] @ py '' is required''))
          else Inr v)"

definition from_env :: "env \<Rightarrow> error + tapestry_config" where
  "from_env env =
     (case get_required_env_value env (py ''TAPESTRY_SCHOOL'') of Inl e \<Rightarrow> Inl e
      | Inr school' \<Rightarrow>
     (let base_url' = py ''https://tapestryjournal.com/s/'' @ school' @ py ''/observation'' in
      case get_required_env_value env (py ''TAPESTRY_COOKIE_VALUE'') of Inl e \<Rightarrow> Inl e
      | Inr cookie_value' \<Rightarrow>
     (case get_required_env_value env (py ''TAPESTRY_FIRST_OBSERVATION_ID'') of Inl e \<Rightarrow> Inl e
      | Inr first_observation_id' \<Rightarrow>
     (case get_required_env_value env (py ''TAPESTRY_NAME'') of Inl e \<Rightarrow> Inl e
      | Inr name' \<Rightarrow>
        Inr \<lparr>cookie_value = cookie_value', first_observation_id = first_observation_id',
             name = name', school = school', base_url = base_url', timeout = 60\<rparr>))))"

definition get_doc :: "env \<Rightarrow> pystr \<Rightarrow> tapestry_config \<Rightarrow> (error + page_document) \<times> event list" where
  "get_doc env observation_id config =
     (let url = base_url config @ py ''/'' @ observation_id in
      case http_get_doc env url of
        None \<Rightarrow> (Inl RequestException, [GetDoc url])
      | Some doc \<Rightarrow> (Inr doc, [GetDoc url]))"

text \<open>The loop over the \<open>.alert\<close> elements at the head of \<open>get_metadata\<close>.\<close>

fun check_alerts :: "pystr list \<Rightarrow> error + unit" where
  "check_alerts [] = Inr ()"
| "check_alerts (alert # rest) =
     (let alert_text = strip alert in
      if alert_text \<noteq> [] \<and> contains (py ''logged out'') alert_text
      then Inl LoggedOutException
      else check_alerts rest)"

text \<open>
  \<open>.text\<close> of the \<open>None\<close> that \<open>select_one\<close> returns for a missing element, and
  \<open>.group\<close> of the \<open>None\<close> that \<open>re.search\<close> returns, raise \<open>AttributeError\<close>.
\<close>

definition get_metadata :: "env \<Rightarrow> page_document \<Rightarrow> error + metadata" where
  "get_metadata env doc =
     (case check_alerts (alert_texts doc) of Inl e \<Rightarrow> Inl e
      | Inr _ \<Rightarrow>
     (case h1_text doc of None \<Rightarrow> Inl AttributeError
      | Some h1 \<Rightarrow>
     (case page_note_text doc of None \<Rightarrow> Inl AttributeError
      | Some note \<Rightarrow>
     (case obs_metadata_text doc of None \<Rightarrow> Inl AttributeError
      | Some caption \<Rightarrow>
     (case re_search_authored (strip caption) of None \<Rightarrow> Inl AttributeError
      | Some (group1, group2) \<Rightarrow>
     (case strptime env group2 of None \<Rightarrow> Inl ValueError
      | Some d \<Rightarrow>
        Inr \<lparr>title = strip h1, description = replace_char 10 32 (strip note),
             artist = group1, date = d\<rparr>))))))"

text \<open>
  The loop of \<open>save_images_for_page\<close> and of \<open>save_videos_for_page\<close>, which differ in
  the \<open>video\<close> flag they give \<open>get_file_name\<close> only; \<open>idx\<close> is the counter of
  \<open>enumerate\<close>. A missing \<open>src\<close> raises \<open>KeyError\<close>. The response status of a media
  request is not checked.
\<close>

fun save_assets ::
  "env \<Rightarrow> bool \<Rightarrow> int \<Rightarrow> pystr option list \<Rightarrow> metadata \<Rightarrow> (error + unit) \<times> event list" where
  "save_assets env video idx [] metadata = (Inr (), [])"
| "save_assets env video idx (a # rest) metadata =
     (case a of None \<Rightarrow> (Inl KeyError, [])
      | Some url \<Rightarrow>
     (case http_get_content env url of None \<Rightarrow> (Inl RequestException, [GetAsset url])
      | Some data \<Rightarrow>
     (let file_name = get_file_name metadata idx video in
      if path_writable env file_name then
        (case save_assets env video (idx + 1) rest metadata of
           (r, evs) \<Rightarrow> (r, GetAsset url # Write file_name (Bytes data) # evs))
      else (Inl OSError, [GetAsset url]))))"

definition save_images_for_page ::
  "env \<Rightarrow> pystr option list \<Rightarrow> metadata \<Rightarrow> (error + unit) \<times> event list" where
  "save_images_for_page env images metadata = save_assets env False 0 images metadata"

definition save_videos_for_page ::
  "env \<Rightarrow> pystr option list \<Rightarrow> metadata \<Rightarrow> (error + unit) \<times> event list" where
  "save_videos_for_page env videos metadata = save_assets env True 0 videos metadata"

definition save_media_for_page ::
  "env \<Rightarrow> page_document \<Rightarrow> tapestry_config \<Rightarrow> (error + pystr) \<times> event list" where
  "save_media_for_page env doc config =
     (case get_metadata env doc of Inl e \<Rightarrow> (Inl e, [])
      | Inr metadata \<Rightarrow>
     (case save_images_for_page env (gallery_imgs doc) metadata of
        (Inl e, evs1) \<Rightarrow> (Inl e, evs1)
      | (Inr _, evs1) \<Rightarrow>
     (case save_videos_for_page env (gallery_videos doc) metadata of
        (Inl e, evs2) \<Rightarrow> (Inl e, evs1 @ evs2)
      | (Inr _, evs2) \<Rightarrow> (Inr (capture_observation_info metadata), evs1 @ evs2))))"

text \<open>
  \<open>re.escape\<close> makes the base URL a literal, so the pattern matches at the leftmost
  occurrence of the base URL followed by a slash, and the group is the longest run of
  digits that follows, which may be empty.
\<close>

definition get_next_observation_id ::
  "env \<Rightarrow> page_document \<Rightarrow> tapestry_config \<Rightarrow> error + pystr option" where
  "get_next_observation_id env doc config =
     (case previous_href doc of None \<Rightarrow> Inr None
      | Some None \<Rightarrow> Inl KeyError
      | Some (Some href) \<Rightarrow>
     (case find_after (base_url config @ py ''/'') href of
        None \<Rightarrow> Inl (RuntimeError (py ''observation id not found''))
      | Some rest \<Rightarrow> Inr (Some (takeWhile (re_digit env) rest))))"

definition JOURNAL_PATH :: pystr where
  "JOURNAL_PATH = py ''./images/observations-info.md''"

text \<open>
  The \<open>while\<close> loop of \<open>run\<close>, with its variables \<open>observation_id\<close> and \<open>md\<close> and the
  effects so far. \<open>None\<close> and the empty string are the falsy identifiers that end it.
  An exception leaves the loop with the effects so far; \<open>md\<close> is a local variable and
  is gone then. The loop need not end (the links may form a cycle): not returning is
  the value \<open>None\<close>.
\<close>

partial_function (option) run_loop ::
  "env \<Rightarrow> tapestry_config \<Rightarrow> pystr option \<Rightarrow> pystr \<Rightarrow> event list
     \<Rightarrow> ((error + pystr) \<times> event list) option" where
  "run_loop env config observation_id md trace =
     (case observation_id of None \<Rightarrow> Some (Inr md, trace)
      | Some oid \<Rightarrow>
        if oid = [] then Some (Inr md, trace)
        else
     (case get_doc env oid config of
        (Inl e, evs) \<Rightarrow> Some (Inl e, trace @ Print oid # evs)
      | (Inr doc, evs) \<Rightarrow>
     (case save_media_for_page env doc config of
        (Inl e, evs') \<Rightarrow> Some (Inl e, trace @ Print oid # evs @ evs')
      | (Inr section_md, evs') \<Rightarrow>
     (case get_next_observation_id env doc config of
        Inl e \<Rightarrow> Some (Inl e, trace @ Print oid # evs @ evs')
      | Inr next_id \<Rightarrow>
          run_loop env config next_id (md @ section_md) (trace @ Print oid # evs @ evs')))))"

definition run :: "env \<Rightarrow> tapestry_config \<Rightarrow> ((error + unit) \<times> event list) option" where
  "run env config =
     (case run_loop env config (Some (first_observation_id config))
             (py ''# Tapestry observations for '' @ name config @ py ''\<newline>\<newline>'') [] of
        None \<Rightarrow> None
      | Some (Inl e, trace) \<Rightarrow> Some (Inl e, trace)
      | Some (Inr md, trace) \<Rightarrow>
          if path_writable env JOURNAL_PATH
          then Some (Inr (), trace @ [Write JOURNAL_PATH (Text md)])
          else Some (Inl OSError, trace))"

text \<open>
  How \<open>main\<close> ends: it returns, it leaves through \<open>sys.exit\<close>, or an exception that no
  handler catches leaves it. The interpreter turns that into the exit status of the
  process: 0 after a return, the argument of \<open>sys.exit\<close>, 1 after printing the traceback
  of an unhandled exception.
\<close>

datatype outcome = Returned | SystemExit int | Unhandled error

definition exit_status :: "outcome \<Rightarrow> int" where
  "exit_status out = (case out of Returned \<Rightarrow> 0 | SystemExit n \<Rightarrow> n | Unhandled e \<Rightarrow> 1)"

definition main :: "env \<Rightarrow> (outcome \<times> event list) option" where
  "main env =
     (case from_env env of Inl e \<Rightarrow> Some (Unhandled e, [])
      | Inr config \<Rightarrow>
     (case run env config of None \<Rightarrow> None
      | Some (Inr _, trace) \<Rightarrow> Some (Returned, trace)
      | Some (Inl e, trace) \<Rightarrow>
          if e = LoggedOutException
          then Some (SystemExit 1,
                 trace @ [Print (py ''ERROR: You appear to be logged out. Check cookie value.'')])
          else Some (Unhandled e, trace)))"

section \<open>The file name as the specification words it\<close>




definition slugify :: "pystr \<Rightarrow> pystr" where
  "slugify t = map (\<lambda>c. if c = 32 then 45 else c) (strip (filter (\<lambda>c. c < 128) t))"

definition art_day :: metadata where
  "art_day = \<lparr>title = py ''Art Day!'', description = py ''We painted a tree.'', artist = py ''Ms Smith'',
     date = \<lparr>year = 2023, month = 5, day = 2, hour = 14, minute = 30\<rparr>\<rparr>"

text \<open>A title with an accented letter, a symbol beyond the ASCII range and spaces around it.\<close>

definition cafe_day :: metadata where
  "cafe_day = \<lparr>title = py '' Caf'' @ [233] @ py '' '' @ [9749] @ py '' day '',
     description = py ''Coffee.'', artist = py ''Ms Smith'',
     date = \<lparr>year = 2023, month = 5, day = 2, hour = 9, minute = 5\<rparr>\<rparr>"


section \<open>A small site to run the program on\<close>

text \<open>
  Three linked pages, 30, 20 and 10, of the school \<open>demo\<close>: page 30 has one image, page
  20 no media, page 10 one video and no link to a previous page.
\<close>

definition demo_base :: pystr where
  "demo_base = py ''https://tapestryjournal.com/s/demo/observation''"

definition page30 :: page_document where
  "page30 = \<lparr>alert_texts = [py '' ''], h1_text = Some (py '' Art Day! ''),
     page_note_text = Some (py ''We painted\<newline>a tree.''),
     obs_metadata_text = Some (py ''Authored by Ms Smith added 2 May 2023 2:30 PM''),
     gallery_imgs = [Some (py ''http://cdn/a.jpg'')], gallery_videos = [],
     previous_href = Some (Some (demo_base @ py ''/20''))\<rparr>"

definition page20 :: page_document where
  "page20 = \<lparr>alert_texts = [], h1_text = Some (py ''Sand''),
     page_note_text = Some (py ''Digging.''),
     obs_metadata_text = Some (py ''Authored by Mr Jones added 1 May 2023 9:05 AM''),
     gallery_imgs = [], gallery_videos = [],
     previous_href = Some (Some (demo_base @ py ''/10?from=20''))\<rparr>"

definition page10 :: page_document where
  "page10 = \<lparr>alert_texts = [], h1_text = Some (py ''Song''),
     page_note_text = Some (py ''Singing.''),
     obs_metadata_text = Some (py ''Authored by Ms Smith added 1 May 2023 9:05 AM''),
     gallery_imgs = [], gallery_videos = [Some (py ''http://cdn/v.mp4'')],
     previous_href = None\<rparr>"

definition demo_env :: env where
  "demo_env = \<lparr>
     getenv = (\<lambda>v. if v = py ''TAPESTRY_SCHOOL'' then Some (py ''demo'')
                    else if v = py ''TAPESTRY_COOKIE_VALUE'' then Some (py ''c00kie'')
                    else if v = py ''TAPESTRY_FIRST_OBSERVATION_ID'' then Some (py ''30'')
                    else if v = py ''TAPESTRY_NAME'' then Some (py ''Ada'')
                    else None),
     http_get_doc = (\<lambda>url. if url = demo_base @ py ''/30'' then Some page30
                    else if url = demo_base @ py ''/20'' then Some page20
                    else if url = demo_base @ py ''/10'' then Some page10
                    else None),
     http_get_content = (\<lambda>url. if url = py ''http://cdn/a.jpg'' then Some [255, 216]
                    else if url = py ''http://cdn/v.mp4'' then Some [0, 0, 0, 24]
                    else None),
     strptime = (\<lambda>s. if s = py ''2 May 2023 2:30 PM''
                      then Some \<lparr>year = 2023, month = 5, day = 2, hour = 14, minute = 30\<rparr>
                    else if s = py ''1 May 2023 9:05 AM''
                      then Some \<lparr>year = 2023, month = 5, day = 1, hour = 9, minute = 5\<rparr>
                    else None),
     re_digit = (\<lambda>c. 48 \<le> c \<and> c \<le> 57),
     path_writable = (\<lambda>p. True)\<rparr>"

definition demo_config :: tapestry_config where
  "demo_config = \<lparr>cookie_value = py ''c00kie'', first_observation_id = py ''30'',
     name = py ''Ada'', school = py ''demo'', base_url = demo_base, timeout = 60\<rparr>"

text \<open>The page a logged-out session gets: an alert and nothing of an observation.\<close>

definition logged_out_page :: page_document where
  "logged_out_page = \<lparr>alert_texts = [[], py ''\<newline> You have been logged out. \<newline>''],
     h1_text = None, page_note_text = None, obs_metadata_text = None,
     gallery_imgs = [], gallery_videos = [], previous_href = None\<rparr>"

text \<open>Page 30 with a caption of another shape.\<close>

definition page_bad_caption :: page_document where
  "page_bad_caption = page30\<lparr>obs_metadata_text := Some (py ''By Ms Smith on 2 May 2023'')\<rparr>"

text \<open>The same site when the session has expired, or the network fails, at page 20.\<close>

definition expired_env :: env where
  "expired_env = demo_env\<lparr>http_get_doc :=
     (\<lambda>url. if url = demo_base @ py ''/20'' then Some logged_out_page
            else http_get_doc demo_env url)\<rparr>"

definition offline_env :: env where
  "offline_env = demo_env\<lparr>http_get_doc :=
     (\<lambda>url. if url = demo_base @ py ''/20'' then None else http_get_doc demo_env url)\<rparr>"

text \<open>Page 10 with a link that leads off the site, and with a link that has no identifier.\<close>

definition page_foreign_link :: page_document where
  "page_foreign_link = page10\<lparr>previous_href := Some (Some (py ''/s/other/observation/5''))\<rparr>"

definition page_no_digits :: page_document where
  "page_no_digits = page10\<lparr>previous_href := Some (Some (demo_base @ py ''/''))\<rparr>"

definition foreign_env :: env where
  "foreign_env = demo_env\<lparr>http_get_doc :=
     (\<lambda>url. if url = demo_base @ py ''/10'' then Some page_foreign_link
            else http_get_doc demo_env url)\<rparr>"

definition no_digits_env :: env where
  "no_digits_env = demo_env\<lparr>http_get_doc :=
     (\<lambda>url. if url = demo_base @ py ''/10'' then Some page_no_digits
            else http_get_doc demo_env url)\<rparr>"

section \<open>Reading the effects of a run\<close>

text \<open>
  The lines printed, the pages requested and the contents written to the journal file,
  each in the order of the run.
\<close>

definition printed :: "event list \<Rightarrow> pystr list" where
  "printed trace = concat (map (\<lambda>e. case e of Print s \<Rightarrow> [s] | _ \<Rightarrow> []) trace)"

definition pages_requested :: "event list \<Rightarrow> pystr list" where
  "pages_requested trace = concat (map (\<lambda>e. case e of GetDoc u \<Rightarrow> [u] | _ \<Rightarrow> []) trace)"

definition journal_writes :: "event list \<Rightarrow> content list" where
  "journal_writes trace =
     concat (map (\<lambda>e. case e of Write p c \<Rightarrow> if p = JOURNAL_PATH then [c] else []
                                | _ \<Rightarrow> []) trace)"

text \<open>
  A chain of pages, each with its identifier: every identifier is a non-empty string,
  the site answers it with the page, the page is processed without an error, the link
  of every page but the last yields the identifier of the next one, and the last page
  has no link.
\<close>

definition page_ok :: "env \<Rightarrow> tapestry_config \<Rightarrow> pystr \<Rightarrow> page_document \<Rightarrow> bool" where
  "page_ok env config oid doc =
     (oid \<noteq> [] \<and> http_get_doc env (base_url config @ py ''/'' @ oid) = Some doc
      \<and> \<not> isl (fst (save_media_for_page env doc config)))"

fun chain_ok :: "env \<Rightarrow> tapestry_config \<Rightarrow> (pystr \<times> page_document) list \<Rightarrow> bool" where
  "chain_ok env config [] = False"
| "chain_ok env config [(oid, doc)] = (page_ok env config oid doc \<and> previous_href doc = None)"
| "chain_ok env config ((oid, doc) # (oid', doc') # rest) =
     (page_ok env config oid doc
      \<and> get_next_observation_id env doc config = Inr (Some oid')
      \<and> chain_ok env config ((oid', doc') # rest))"

text \<open>The journal section of a page: the entry of its metadata.\<close>

definition section_of :: "env \<Rightarrow> page_document \<Rightarrow> pystr" where
  "section_of env doc =
     (case get_metadata env doc of Inr metadata \<Rightarrow> capture_observation_info metadata
      | Inl e \<Rightarrow> [])"

definition journal_header :: "tapestry_config \<Rightarrow> pystr" where
  "journal_header config = py ''# Tapestry observations for '' @ name config @ py ''\<newline>\<newline>''"


text \<open>The effects of the run that finds the session expired at page 20.\<close>

definition expired_trace :: "event list" where
  "expired_trace =
     [Print (py ''30''), GetDoc (demo_base @ py ''/30''), GetAsset (py ''http://cdn/a.jpg''),
      Write (py ''./images/2023-05-02-14-30-Art-Day!.jpeg'') (Bytes [255, 216]),
      Print (py ''20''), GetDoc (demo_base @ py ''/20'')]"

definition offline_trace :: "event list" where
  "offline_trace =
     [Print (py ''30''), GetDoc (demo_base @ py ''/30''), GetAsset (py ''http://cdn/a.jpg''),
      Write (py ''./images/2023-05-02-14-30-Art-Day!.jpeg'') (Bytes [255, 216]),
      Print (py ''20''), GetDoc (demo_base @ py ''/20'')]"

text \<open>The effects and the journal of the run over the three pages.\<close>

definition demo_journal :: pystr where
  "demo_journal = py ''# Tapestry observations for Ada\<newline>\<newline>''
     @ py ''## Art Day!\<newline>\<newline>### Ms Smith, 2 May 2023 02:30PM\<newline>\<newline>We painted a tree.\<newline>\<newline>''
     @ py ''## Sand\<newline>\<newline>### Mr Jones, 1 May 2023 09:05AM\<newline>\<newline>Digging.\<newline>\<newline>''
     @ py ''## Song\<newline>\<newline>### Ms Smith, 1 May 2023 09:05AM\<newline>\<newline>Singing.\<newline>\<newline>''"

definition demo_trace :: "event list" where
  "demo_trace =
     [Print (py ''30''), GetDoc (demo_base @ py ''/30''), GetAsset (py ''http://cdn/a.jpg''),
      Write (py ''./images/2023-05-02-14-30-Art-Day!.jpeg'') (Bytes [255, 216]),
      Print (py ''20''), GetDoc (demo_base @ py ''/20''),
      Print (py ''10''), GetDoc (demo_base @ py ''/10''), GetAsset (py ''http://cdn/v.mp4''),
      Write (py ''./images/2023-05-01-09-05-Song.mp4'') (Bytes [0, 0, 0, 24]),
      Write JOURNAL_PATH (Text demo_journal)]"

section \<open>Properties of the string functions\<close>

lemma str_nat_digit: "c \<in> set (str_nat n) \<Longrightarrow> 48 \<le> c \<and> c \<le> 57"
proof (induction n rule: str_nat.induct)
  case (1 n)
  show ?case
  proof (cases "n < 10")
    case True
    with "1.prems" show ?thesis by (simp add: str_nat.simps)
  next
    case False
    with "1.prems" have "c \<in> set (str_nat (n div 10)) \<or> c = 48 + n mod 10"
      by (subst (asm) str_nat.simps) auto
    then show ?thesis using "1.IH" False by (auto simp: less_Suc_eq_le)
  qed
qed

lemma zfill_digit: "c \<in> set (zfill w (str_nat n)) \<Longrightarrow> 48 \<le> c \<and> c \<le> 57"
  by (auto simp: zfill_def dest: str_nat_digit)



lemma strftime_file_format:
  "strftime dt (py ''./images/%Y-%m-%d-%H-%M-'') =
     py ''./images/'' @ zfill 4 (str_nat (year dt)) @ py ''-'' @ zfill 2 (str_nat (month dt))
       @ py ''-'' @ zfill 2 (str_nat (day dt)) @ py ''-'' @ zfill 2 (str_nat (hour dt))
       @ py ''-'' @ zfill 2 (str_nat (minute dt)) @ py ''-''"
  by (simp add: py_def directive_def)


lemma set_strip: "set (strip s) \<subseteq> set s"
  by (auto simp: strip_def lstrip_def rstrip_def dest!: set_dropWhileD)

lemma slugify_code: "replace_char 32 45 (strip (re_sub_non_ascii t)) = slugify t"
proof -
  have "(\<lambda>c::nat. c \<le> 127) = (\<lambda>c. c < 128)" by auto
  then show ?thesis by (simp add: slugify_def replace_char_def re_sub_non_ascii_def)
qed

lemma slugify_chars: "c \<in> set (slugify t) \<Longrightarrow> c \<le> 127 \<and> c \<noteq> 32"
proof -
  assume "c \<in> set (slugify t)"
  then obtain x where x: "x \<in> set (strip (filter (\<lambda>c. c < 128) t))"
    and c: "c = (if x = 32 then 45 else x)"
    by (auto simp: slugify_def)
  from x set_strip have "x \<in> set (filter (\<lambda>c. c < 128) t)" by blast
  then have "x < 128" by simp
  with c show ?thesis by auto
qed

lemmas eval_strings = py_def directive_def zfill_def str_nat.simps strip_def lstrip_def
  rstrip_def isspace_def replace_char_def re_sub_non_ascii_def str_int_def

section \<open>File names\<close>



text \<open>
  Claim C6. Whatever the title, the file name holds only ASCII characters and no space:
  the title enters it as its slug, which is the title without its non-ASCII characters,
  trimmed, with every remaining space replaced by a hyphen.
\<close>

theorem get_file_name_ascii_no_space:
  "(\<forall>c \<in> set (get_file_name metadata ordinal video). c \<le> 127 \<and> c \<noteq> 32)
   \<and> (\<exists>before after. get_file_name metadata ordinal video
          = before @ slugify (title metadata) @ after)
   \<and> slugify (title metadata)
       = map (\<lambda>c. if c = 32 then 45 else c)
           (rev (dropWhile isspace (rev (dropWhile isspace
              (filter (\<lambda>c. c < 128) (title metadata))))))"
proof -
  have expand: "get_file_name metadata ordinal video =
      py ''./images/'' @ zfill 4 (str_nat (year (date metadata))) @ [45]
        @ zfill 2 (str_nat (month (date metadata))) @ [45]
        @ zfill 2 (str_nat (day (date metadata))) @ [45]
        @ zfill 2 (str_nat (hour (date metadata))) @ [45]
        @ zfill 2 (str_nat (minute (date metadata))) @ [45]
        @ slugify (title metadata)
        @ (if 0 < ordinal then [45] @ str_int ordinal else [])
        @ (if video then py ''.mp4'' else py ''.jpeg'')"
    by (simp add: get_file_name_def strftime_file_format slugify_code) (simp add: py_def)
  have chars: "c \<le> 127 \<and> c \<noteq> 32" if c: "c \<in> set (get_file_name metadata ordinal video)" for c
  proof -
    have ord: "c \<in> set (str_int ordinal) \<Longrightarrow> 0 < ordinal \<Longrightarrow> 48 \<le> c \<and> c \<le> 57"
      by (auto simp: str_int_def dest: str_nat_digit)
    from c expand consider "c \<in> set (py ''./images/'')" | "c = 45"
      | n w where "c \<in> set (zfill w (str_nat n))"
      | "c \<in> set (slugify (title metadata))"
      | "c \<in> set (str_int ordinal)" "0 < ordinal"
      | "c \<in> set (py ''.mp4'')" | "c \<in> set (py ''.jpeg'')"
      by (auto split: if_splits)
    then show ?thesis
    proof cases
      case 1 then show ?thesis by (auto simp: py_def)
    next
      case 2 then show ?thesis by simp
    next
      case 3 then show ?thesis using zfill_digit [of c w n] by auto
    next
      case 4 then show ?thesis by (rule slugify_chars)
    next
      case 5 then show ?thesis using ord by auto
    next
      case 6 then show ?thesis by (auto simp: py_def)
    next
      case 7 then show ?thesis by (auto simp: py_def)
    qed
  qed
  have inside: "\<exists>before after. get_file_name metadata ordinal video
          = before @ slugify (title metadata) @ after"
    by (auto simp: get_file_name_def slugify_code Let_def)
  have slug: "slugify (title metadata)
       = map (\<lambda>c. if c = 32 then 45 else c)
           (rev (dropWhile isspace (rev (dropWhile isspace
              (filter (\<lambda>c. c < 128) (title metadata))))))"
    by (simp add: slugify_def strip_def lstrip_def rstrip_def)
  from chars inside slug show ?thesis by blast
qed

theorem get_file_name_ascii_no_space_witness:
  "get_file_name cafe_day 0 False = py ''./images/2023-05-02-09-05-Caf--day.jpeg''
   \<and> list_ex (\<lambda>c. 127 < c) (title cafe_day)
   \<and> list_all (\<lambda>c. c \<le> 127 \<and> c \<noteq> 32) (get_file_name cafe_day 0 False)"
proof -
  have "get_file_name cafe_day 0 False = py ''./images/2023-05-02-09-05-Caf--day.jpeg''"
    by (simp add: get_file_name_def cafe_day_def eval_strings)
  moreover have "list_ex (\<lambda>c. 127 < c) (title cafe_day)"
    by (simp add: cafe_day_def py_def)
  moreover have "list_all (\<lambda>c. c \<le> 127 \<and> c \<noteq> 32) (get_file_name cafe_day 0 False)"
    unfolding list_all_iff using get_file_name_ascii_no_space [of cafe_day 0 False] by blast
  ultimately show ?thesis by blast
qed

section \<open>Properties of the searches\<close>

lemma find_after_None: "find_after pat s = None \<longleftrightarrow> \<not> sublist pat s"
  by (induction s) (auto simp: sublist_Cons_right)

lemma contains_sublist: "contains pat s \<longleftrightarrow> sublist pat s"
  by (simp add: contains_def find_after_None)

lemma find_after_prefix: "find_after pat (pat @ rest) = Some rest"
proof (cases "pat @ rest")
  case Nil
  then show ?thesis by simp
next
  case (Cons c cs)
  have "prefix pat (pat @ rest)" by simp
  moreover have "drop (length pat) (pat @ rest) = rest" by simp
  ultimately show ?thesis unfolding Cons by simp
qed

lemma sublist_dropWhile_keep:
  "sublist p s \<Longrightarrow> p \<noteq> [] \<Longrightarrow> \<not> P (hd p) \<Longrightarrow> sublist p (dropWhile P s)"
proof (induction s)
  case Nil
  then show ?case by simp
next
  case (Cons x xs)
  show ?case
  proof (cases "P x")
    case True
    with Cons.prems have "\<not> prefix p (x # xs)"
      by (cases p) auto
    with Cons.prems have "sublist p xs"
      by (simp add: sublist_Cons_right)
    with Cons True show ?thesis by simp
  next
    case False
    with Cons.prems show ?thesis by simp
  qed
qed

lemma sublist_strip_keep:
  assumes "sublist p s" "p \<noteq> []" "\<not> isspace (hd p)" "\<not> isspace (last p)"
  shows "sublist p (strip s)"
proof -
  from assms have "sublist p (lstrip s)"
    by (simp add: lstrip_def sublist_dropWhile_keep)
  then have "sublist (rev p) (rev (lstrip s))" by simp
  with assms have "sublist (rev p) (dropWhile isspace (rev (lstrip s)))"
    by (intro sublist_dropWhile_keep) (simp_all add: hd_rev)
  then show ?thesis
    by (simp add: strip_def rstrip_def sublist_rev_right)
qed

lemma sublist_strip: "sublist (strip s) s"
proof -
  have "sublist (rstrip (lstrip s)) (lstrip s)"
    by (simp add: rstrip_def sublist_rev_left)
  moreover have "sublist (lstrip s) s" by (simp add: lstrip_def)
  ultimately show ?thesis unfolding strip_def by (rule sublist_order.order_trans)
qed

lemma logged_out_survives_strip:
  "sublist (py ''logged out'') (strip a) \<longleftrightarrow> sublist (py ''logged out'') a"
proof
  assume "sublist (py ''logged out'') (strip a)"
  then show "sublist (py ''logged out'') a"
    using sublist_strip sublist_order.order_trans by blast
next
  assume "sublist (py ''logged out'') a"
  then show "sublist (py ''logged out'') (strip a)"
    by (rule sublist_strip_keep) (simp_all add: py_def isspace_def)
qed

lemma check_alerts_cases:
  "check_alerts alerts =
     (if \<exists>a \<in> set alerts. sublist (py ''logged out'') a then Inl LoggedOutException else Inr ())"
proof (induction alerts)
  case Nil
  then show ?case by simp
next
  case (Cons a alerts)
  have "strip a \<noteq> []" if "sublist (py ''logged out'') (strip a)"
    using that by (auto simp: py_def)
  then show ?case
    using Cons by (auto simp: contains_sublist logged_out_survives_strip Let_def)
qed

lemma split_last_None: "split_last pat s = None \<longleftrightarrow> \<not> sublist pat s"
  by (induction s) (auto simp: sublist_Cons_right split: option.splits)


text \<open>
  A line holds \<open> added \<close> exactly when the text splits around it with no line feed
  before it.
\<close>

lemma sublist_line:
  assumes "10 \<notin> set pat"
  shows "sublist pat (takeWhile (\<lambda>x. x \<noteq> 10) r)
           \<longleftrightarrow> (\<exists>a post. r = a @ pat @ post \<and> 10 \<notin> set a)"
proof
  assume "sublist pat (takeWhile (\<lambda>x. x \<noteq> 10) r)"
  then obtain a b where ab: "takeWhile (\<lambda>x. x \<noteq> 10) r = a @ pat @ b"
    by (auto simp: sublist_def)
  have "r = takeWhile (\<lambda>x. x \<noteq> 10) r @ dropWhile (\<lambda>x. x \<noteq> 10) r" by simp
  with ab have "r = a @ pat @ (b @ dropWhile (\<lambda>x. x \<noteq> 10) r)" by simp
  moreover have "10 \<notin> set a"
  proof
    assume "10 \<in> set a"
    then have "10 \<in> set (takeWhile (\<lambda>x. x \<noteq> 10) r)" using ab by simp
    then show False by (auto dest: set_takeWhileD)
  qed
  ultimately show "\<exists>a post. r = a @ pat @ post \<and> 10 \<notin> set a" by blast
next
  assume "\<exists>a post. r = a @ pat @ post \<and> 10 \<notin> set a"
  then obtain a post where r: "r = a @ pat @ post" and a: "10 \<notin> set a" by blast
  from a assms have "\<forall>x \<in> set (a @ pat). x \<noteq> 10" by auto
  then have "takeWhile (\<lambda>x. x \<noteq> 10) ((a @ pat) @ post)
      = (a @ pat) @ takeWhile (\<lambda>x. x \<noteq> 10) post"
    by (intro takeWhile_append2) auto
  with r show "sublist pat (takeWhile (\<lambda>x. x \<noteq> 10) r)"
    by (auto simp: sublist_def)
qed

text \<open>
  The model of the regular expression search agrees with what the pattern says: the
  search fails exactly when the text nowhere reads \<open>Authored by \<close>, characters other
  than a line feed, \<open> added \<close>.
\<close>

lemma re_search_authored_None:
  "re_search_authored t = None \<longleftrightarrow>
     \<not> (\<exists>pre a post. t = pre @ py ''Authored by '' @ a @ py '' added '' @ post \<and> 10 \<notin> set a)"
proof (induction t)
  case Nil
  then show ?case by (simp add: py_def)
next
  case (Cons c cs)
  let ?A = "py ''Authored by ''" and ?B = "py '' added ''"
  have B: "10 \<notin> set ?B" by (simp add: py_def)
  have A: "?A \<noteq> []" by (simp add: py_def)
  have here: "(prefix ?A (c # cs) \<and>
        split_last ?B (takeWhile (\<lambda>x. x \<noteq> 10) (drop (length ?A) (c # cs))) \<noteq> None)
      \<longleftrightarrow> (\<exists>a post. c # cs = ?A @ a @ ?B @ post \<and> 10 \<notin> set a)"
    (is "?L \<longleftrightarrow> ?R")
  proof
    assume ?L
    then obtain r where r: "c # cs = ?A @ r"
      and s: "sublist ?B (takeWhile (\<lambda>x. x \<noteq> 10) (drop (length ?A) (c # cs)))"
      by (auto simp: prefix_def split_last_None)
    from r have "drop (length ?A) (c # cs) = r" by simp
    with s sublist_line [OF B] obtain a post where "r = a @ ?B @ post" "10 \<notin> set a"
      by metis
    with r show ?R by blast
  next
    assume ?R
    then obtain a post where e: "c # cs = ?A @ a @ ?B @ post" and a: "10 \<notin> set a" by blast
    then have "drop (length ?A) (c # cs) = a @ ?B @ post" by simp
    moreover have "sublist ?B (takeWhile (\<lambda>x. x \<noteq> 10) (a @ ?B @ post))"
      using sublist_line [OF B] a by blast
    ultimately show ?L using e by (simp add: split_last_None prefix_def)
  qed
  have split: "(\<exists>pre a post. c # cs = pre @ ?A @ a @ ?B @ post \<and> 10 \<notin> set a)
     \<longleftrightarrow> (\<exists>a post. c # cs = ?A @ a @ ?B @ post \<and> 10 \<notin> set a)
        \<or> (\<exists>pre a post. cs = pre @ ?A @ a @ ?B @ post \<and> 10 \<notin> set a)"
    (is "?E \<longleftrightarrow> ?H \<or> ?T")
  proof
    assume ?E
    then obtain pre a post where e: "c # cs = pre @ ?A @ a @ ?B @ post" and a: "10 \<notin> set a"
      by blast
    show "?H \<or> ?T"
    proof (cases pre)
      case Nil
      with e a show ?thesis by auto
    next
      case (Cons p ps)
      with e have "cs = ps @ ?A @ a @ ?B @ post" by simp
      with a show ?thesis by blast
    qed
  next
    assume "?H \<or> ?T"
    then show ?E
    proof
      assume ?H
      then obtain a post where "c # cs = [] @ ?A @ a @ ?B @ post" "10 \<notin> set a" by auto
      then show ?E by blast
    next
      assume ?T
      then obtain pre a post where "c # cs = (c # pre) @ ?A @ a @ ?B @ post" "10 \<notin> set a"
        by auto
      then show ?E by blast
    qed
  qed
  have "re_search_authored (c # cs) = None \<longleftrightarrow>
      \<not> (prefix ?A (c # cs) \<and>
        split_last ?B (takeWhile (\<lambda>x. x \<noteq> 10) (drop (length ?A) (c # cs))) \<noteq> None)
      \<and> re_search_authored cs = None"
    by (auto split: option.splits)
  with here split Cons.IH show ?case by argo
qed


section \<open>Metadata extraction\<close>


text \<open>
  Claim C3. When some alert of the page reads \<open>logged out\<close> somewhere, extraction fails
  with \<open>LoggedOutException\<close>, the session-expired error. The text the code tests is the
  alert's text without its surrounding whitespace, which holds \<open>logged out\<close> exactly when
  the alert's text does, and then is not empty. The check comes first: the failure is
  the same whatever the heading, the note and the caption are, present or not, and
  whatever the date parser would say.
\<close>

theorem get_metadata_logged_out:
  assumes "a \<in> set (alert_texts doc)" and "sublist (py ''logged out'') a"
  shows "strip a \<noteq> [] \<and> sublist (py ''logged out'') (strip a)
     \<and> get_metadata env doc = Inl LoggedOutException
     \<and> (\<forall>env' h n m. get_metadata env'
            (doc\<lparr>h1_text := h, page_note_text := n, obs_metadata_text := m\<rparr>)
          = Inl LoggedOutException)"
proof -
  from assms(2) have s: "sublist (py ''logged out'') (strip a)"
    by (simp add: logged_out_survives_strip)
  then have ne: "strip a \<noteq> []" by (auto simp: py_def)
  from assms have "check_alerts (alert_texts doc) = Inl LoggedOutException"
    by (auto simp: check_alerts_cases)
  then have any: "get_metadata env' (doc\<lparr>h1_text := h, page_note_text := n, obs_metadata_text := m\<rparr>)
      = Inl LoggedOutException" for env' h n m
    by (simp add: get_metadata_def)
  from any [where env' = env and h = "h1_text doc" and n = "page_note_text doc"
      and m = "obs_metadata_text doc"]
  have "get_metadata env doc = Inl LoggedOutException" by simp
  with any show ?thesis using s ne by blast
qed

theorem get_metadata_logged_out_witness:
  "alert_texts logged_out_page = [[], py ''\<newline> You have been logged out. \<newline>'']
   \<and> h1_text logged_out_page = None
   \<and> get_metadata demo_env logged_out_page = Inl LoggedOutException"
proof -
  have a: "py ''\<newline> You have been logged out. \<newline>'' \<in> set (alert_texts logged_out_page)"
    by (simp add: logged_out_page_def)
  have "contains (py ''logged out'') (py ''\<newline> You have been logged out. \<newline>'')"
    by (simp add: contains_def py_def)
  then have s: "sublist (py ''logged out'') (py ''\<newline> You have been logged out. \<newline>'')"
    by (simp add: contains_sublist)
  from get_metadata_logged_out [OF a s, of demo_env]
  show ?thesis by (simp add: logged_out_page_def)
qed

text \<open>
  Claim C7. A page that passes the session check (no alert reads \<open>logged out\<close>) and has
  no heading, or no note paragraph, or no caption that reads \<open>Authored by\<close>, some
  characters other than a line feed, \<open>added\<close> and a rest, makes extraction fail, and
  not with the session-expired error: the exception is Python's \<open>AttributeError\<close>,
  raised on the \<open>None\<close> of the missing element or of the failed match. The program
  defines no error class of its own for this.
\<close>

theorem get_metadata_parse_error:
  assumes "\<forall>a \<in> set (alert_texts doc). \<not> sublist (py ''logged out'') (strip a)"
    and "h1_text doc = None \<or> page_note_text doc = None
         \<or> (case obs_metadata_text doc of None \<Rightarrow> True
             | Some c \<Rightarrow> \<not> (\<exists>pre a post. strip c
                 = pre @ py ''Authored by '' @ a @ py '' added '' @ post \<and> 10 \<notin> set a))"
  shows "get_metadata env doc = Inl AttributeError
     \<and> get_metadata env doc \<noteq> Inl LoggedOutException"
proof -
  from assms(1) have ok: "check_alerts (alert_texts doc) = Inr ()"
    by (simp add: check_alerts_cases logged_out_survives_strip)
  from assms(2) consider "h1_text doc = None" | "page_note_text doc = None"
    | "obs_metadata_text doc = None"
    | c where "obs_metadata_text doc = Some c" "re_search_authored (strip c) = None"
    by (auto simp: re_search_authored_None split: option.splits)
  then have "get_metadata env doc = Inl AttributeError"
    by cases (simp_all add: get_metadata_def ok split: option.splits)
  then show ?thesis by simp
qed

theorem get_metadata_parse_error_witness:
  "obs_metadata_text page_bad_caption = Some (py ''By Ms Smith on 2 May 2023'')
   \<and> get_metadata demo_env page_bad_caption = Inl AttributeError"
proof -
  have 1: "\<forall>a \<in> set (alert_texts page_bad_caption). \<not> sublist (py ''logged out'') (strip a)"
    by (simp add: page_bad_caption_def page30_def contains_sublist [symmetric] contains_def
        eval_strings)
  have "re_search_authored (strip (py ''By Ms Smith on 2 May 2023'')) = None"
    by (simp add: eval_strings)
  then have 2: "h1_text page_bad_caption = None \<or> page_note_text page_bad_caption = None
         \<or> (case obs_metadata_text page_bad_caption of None \<Rightarrow> True
             | Some c \<Rightarrow> \<not> (\<exists>pre a post. strip c
                 = pre @ py ''Authored by '' @ a @ py '' added '' @ post \<and> 10 \<notin> set a))"
    by (simp add: page_bad_caption_def re_search_authored_None)
  from get_metadata_parse_error [OF 1 2, of demo_env]
  show ?thesis by (simp add: page_bad_caption_def)
qed



section \<open>The effects of the functions\<close>

lemma journal_writes_simps [simp]:
  "journal_writes [] = []"
  "journal_writes (a @ b) = journal_writes a @ journal_writes b"
  "journal_writes (Print s # t) = journal_writes t"
  "journal_writes (GetDoc u # t) = journal_writes t"
  "journal_writes (GetAsset u # t) = journal_writes t"
  "journal_writes (Write p c # t) = (if p = JOURNAL_PATH then c # journal_writes t
                                     else journal_writes t)"
  by (simp_all add: journal_writes_def)

lemma printed_simps [simp]:
  "printed [] = []"
  "printed (a @ b) = printed a @ printed b"
  "printed (Print s # t) = s # printed t"
  "printed (GetDoc u # t) = printed t"
  "printed (GetAsset u # t) = printed t"
  "printed (Write p c # t) = printed t"
  by (simp_all add: printed_def)

lemma pages_requested_simps [simp]:
  "pages_requested [] = []"
  "pages_requested (a @ b) = pages_requested a @ pages_requested b"
  "pages_requested (Print s # t) = pages_requested t"
  "pages_requested (GetDoc u # t) = u # pages_requested t"
  "pages_requested (GetAsset u # t) = pages_requested t"
  "pages_requested (Write p c # t) = pages_requested t"
  by (simp_all add: pages_requested_def)

lemma get_file_name_last: "last (get_file_name metadata idx video) = (if video then 52 else 103)"
  by (simp add: get_file_name_def py_def)

lemma get_file_name_not_journal: "get_file_name metadata idx video \<noteq> JOURNAL_PATH"
proof
  assume "get_file_name metadata idx video = JOURNAL_PATH"
  then have "last (get_file_name metadata idx video) = last JOURNAL_PATH" by simp
  then show False
    by (simp add: get_file_name_last JOURNAL_PATH_def py_def split: if_splits)
qed

lemma save_assets_events:
  "save_assets env video idx xs metadata = (r, evs) \<Longrightarrow>
     journal_writes evs = [] \<and> printed evs = [] \<and> pages_requested evs = []"
proof (induction xs arbitrary: idx r evs)
  case Nil
  then show ?case by auto
next
  case (Cons a xs)
  show ?case
  proof (cases a)
    case None
    with Cons.prems show ?thesis by auto
  next
    case (Some url)
    show ?thesis
    proof (cases "http_get_content env url")
      case None
      with Some Cons.prems show ?thesis by auto
    next
      case (Some data)
      show ?thesis
      proof (cases "path_writable env (get_file_name metadata idx video)")
        case False
        with \<open>a = Some url\<close> Some Cons.prems show ?thesis by auto
      next
        case True
        obtain r' evs' where rec: "save_assets env video (idx + 1) xs metadata = (r', evs')"
          by (cases "save_assets env video (idx + 1) xs metadata")
        with \<open>a = Some url\<close> Some True Cons.prems
        have "evs = GetAsset url # Write (get_file_name metadata idx video) (Bytes data) # evs'"
          by auto
        with Cons.IH [OF rec] show ?thesis
          by (simp add: get_file_name_not_journal)
      qed
    qed
  qed
qed

lemma save_media_events:
  assumes "save_media_for_page env doc config = (r, evs)"
  shows "journal_writes evs = [] \<and> printed evs = [] \<and> pages_requested evs = []"
proof (cases "get_metadata env doc")
  case (Inl e)
  with assms show ?thesis by (auto simp: save_media_for_page_def)
next
  case (Inr metadata)
  obtain r1 evs1 where 1: "save_assets env False 0 (gallery_imgs doc) metadata = (r1, evs1)"
    by (cases "save_assets env False 0 (gallery_imgs doc) metadata")
  obtain r2 evs2 where 2: "save_assets env True 0 (gallery_videos doc) metadata = (r2, evs2)"
    by (cases "save_assets env True 0 (gallery_videos doc) metadata")
  from assms Inr 1 2 have "evs = evs1 \<or> evs = evs1 @ evs2"
    by (auto simp: save_media_for_page_def save_images_for_page_def save_videos_for_page_def
        split: sum.splits)
  with save_assets_events [OF 1] save_assets_events [OF 2] show ?thesis by auto
qed

lemma save_media_section:
  "save_media_for_page env doc config = (Inr section_md, evs) \<Longrightarrow>
     section_md = section_of env doc"
  by (auto simp: save_media_for_page_def section_of_def split: sum.splits prod.splits)

section \<open>The loop\<close>

lemma run_loop_end:
  "run_loop env config None md trace = Some (Inr md, trace)"
  "run_loop env config (Some []) md trace = Some (Inr md, trace)"
  by (simp_all add: run_loop.simps)

text \<open>One turn of the loop on a page that is fetched and processed without error.\<close>

lemma run_loop_step:
  assumes "oid \<noteq> []"
    and "http_get_doc env (base_url config @ py ''/'' @ oid) = Some doc"
    and "save_media_for_page env doc config = (Inr section_md, evs)"
  shows "run_loop env config (Some oid) md trace =
     (case get_next_observation_id env doc config of
        Inl e \<Rightarrow> Some (Inl e,
          trace @ Print oid # GetDoc (base_url config @ py ''/'' @ oid) # evs)
      | Inr next_id \<Rightarrow> run_loop env config next_id (md @ section_md)
          (trace @ Print oid # GetDoc (base_url config @ py ''/'' @ oid) # evs))"
  using assms by (subst run_loop.simps) (simp add: get_doc_def split: sum.splits)

text \<open>
  Whatever way the loop ends, it has written nothing to the journal file, and the text
  it returns starts with the text it was given.
\<close>

lemma run_loop_journal:
  "run_loop env config observation_id md trace = Some y \<Longrightarrow>
     journal_writes (snd y) = journal_writes trace
     \<and> (\<forall>md'. fst y = Inr md' \<longrightarrow> prefix md md')"
proof (erule run_loop.raw_induct [rotated 1, where P =
      "\<lambda>env config observation_id md trace y. journal_writes (snd y) = journal_writes trace
         \<and> (\<forall>md'. fst y = Inr md' \<longrightarrow> prefix md md')"],
    goal_cases)
  case (1 loop env config observation_id md trace y)
  note IH = "1"(1) and body = "1"(2)
  show ?case
  proof (cases "observation_id = None \<or> observation_id = Some []")
    case True
    with body show ?thesis by auto
  next
    case False
    then obtain oid where oid: "observation_id = Some oid" "oid \<noteq> []" by auto
    obtain r1 evs1 where g: "get_doc env oid config = (r1, evs1)"
      by (cases "get_doc env oid config")
    then have e1: "journal_writes evs1 = []"
      by (auto simp: get_doc_def Let_def split: option.splits)
    show ?thesis
    proof (cases r1)
      case (Inl e)
      with body oid g e1 show ?thesis by auto
    next
      case (Inr doc)
      obtain r2 evs2 where s: "save_media_for_page env doc config = (r2, evs2)"
        by (cases "save_media_for_page env doc config")
      then have e2: "journal_writes evs2 = []" using save_media_events by blast
      show ?thesis
      proof (cases r2)
        case (Inl e)
        with body oid g Inr s e1 e2 show ?thesis by auto
      next
        case sec: (Inr section_md)
        show ?thesis
        proof (cases "get_next_observation_id env doc config")
          case (Inl e)
          with body oid g Inr s sec e1 e2 show ?thesis by auto
        next
          case nxt: (Inr next_id)
          with body oid g Inr s sec
          have "loop env config next_id (md @ section_md) (trace @ Print oid # evs1 @ evs2)
              = Some y"
            by simp
          from IH [OF this] e1 e2 show ?thesis
            by (auto dest: append_prefixD)
        qed
      qed
    qed
  qed
qed

section \<open>Runs on the small site\<close>

lemmas eval_model = get_metadata_def save_media_for_page_def save_images_for_page_def
  save_videos_for_page_def get_file_name_def get_next_observation_id_def get_doc_def
  contains_def eval_strings

lemmas eval_demo = demo_env_def demo_config_def page30_def page20_def page10_def
  logged_out_page_def art_day_def

lemma from_env_demo: "from_env demo_env = Inr demo_config"
  by (simp add: from_env_def get_required_env_value_def demo_env_def demo_config_def
      demo_base_def py_def)

lemma save_media_page30:
  "save_media_for_page demo_env page30 demo_config =
     (Inr (capture_observation_info art_day),
      [GetAsset (py ''http://cdn/a.jpg''),
       Write (py ''./images/2023-05-02-14-30-Art-Day!.jpeg'') (Bytes [255, 216])])"
  by (simp add: eval_model eval_demo)

lemma run_expired:
  "run expired_env demo_config = Some (Inl LoggedOutException, expired_trace)"
proof -
  have 1: "save_media_for_page expired_env page30 demo_config =
     (Inr (capture_observation_info art_day),
      [GetAsset (py ''http://cdn/a.jpg''),
       Write (py ''./images/2023-05-02-14-30-Art-Day!.jpeg'') (Bytes [255, 216])])"
    by (simp add: eval_model eval_demo expired_env_def)
  have 2: "http_get_doc expired_env (base_url demo_config @ py ''/'' @ py ''30'') = Some page30"
    by (simp add: demo_config_def expired_env_def demo_env_def py_def)
  have 3: "get_next_observation_id expired_env page30 demo_config = Inr (Some (py ''20''))"
    by (simp add: eval_model eval_demo expired_env_def demo_base_def)
  have 4: "run_loop expired_env demo_config (Some (py ''30'')) md [] =
      run_loop expired_env demo_config (Some (py ''20'')) (md @ capture_observation_info art_day)
        ([] @ Print (py ''30'') # GetDoc (base_url demo_config @ py ''/'' @ py ''30'')
          # [GetAsset (py ''http://cdn/a.jpg''),
             Write (py ''./images/2023-05-02-14-30-Art-Day!.jpeg'') (Bytes [255, 216])])" for md
    by (subst run_loop_step [OF _ 2 1]) (simp_all add: 3 py_def)
  have 5: "run_loop expired_env demo_config (Some (py ''20'')) md trace =
      Some (Inl LoggedOutException,
        trace @ [Print (py ''20''), GetDoc (demo_base @ py ''/20'')])" for md trace
    by (subst run_loop.simps)
      (simp add: eval_model eval_demo expired_env_def)
  have 6: "first_observation_id demo_config = py ''30''"
    by (simp add: demo_config_def)
  show ?thesis
    unfolding run_def 6 4 5 by (simp add: expired_trace_def demo_config_def py_def)
qed

lemma run_offline:
  "run offline_env demo_config = Some (Inl RequestException, offline_trace)"
proof -
  have 1: "save_media_for_page offline_env page30 demo_config =
     (Inr (capture_observation_info art_day),
      [GetAsset (py ''http://cdn/a.jpg''),
       Write (py ''./images/2023-05-02-14-30-Art-Day!.jpeg'') (Bytes [255, 216])])"
    by (simp add: eval_model eval_demo offline_env_def)
  have 2: "http_get_doc offline_env (base_url demo_config @ py ''/'' @ py ''30'') = Some page30"
    by (simp add: demo_config_def offline_env_def demo_env_def py_def)
  have 3: "get_next_observation_id offline_env page30 demo_config = Inr (Some (py ''20''))"
    by (simp add: eval_model eval_demo offline_env_def demo_base_def)
  have 4: "run_loop offline_env demo_config (Some (py ''30'')) md [] =
      run_loop offline_env demo_config (Some (py ''20'')) (md @ capture_observation_info art_day)
        ([] @ Print (py ''30'') # GetDoc (base_url demo_config @ py ''/'' @ py ''30'')
          # [GetAsset (py ''http://cdn/a.jpg''),
             Write (py ''./images/2023-05-02-14-30-Art-Day!.jpeg'') (Bytes [255, 216])])" for md
    by (subst run_loop_step [OF _ 2 1]) (simp_all add: 3 py_def)
  have 5: "run_loop offline_env demo_config (Some (py ''20'')) md trace =
      Some (Inl RequestException,
        trace @ [Print (py ''20''), GetDoc (demo_base @ py ''/20'')])" for md trace
    by (subst run_loop.simps)
      (simp add: eval_model eval_demo offline_env_def)
  have 6: "first_observation_id demo_config = py ''30''"
    by (simp add: demo_config_def)
  show ?thesis
    unfolding run_def 6 4 5 by (simp add: offline_trace_def demo_config_def py_def)
qed

lemma run_demo: "run demo_env demo_config = Some (Inr (), demo_trace)"
proof -
  have s30: "save_media_for_page demo_env page30 demo_config =
     (Inr (py ''## Art Day!\<newline>\<newline>### Ms Smith, 2 May 2023 02:30PM\<newline>\<newline>We painted a tree.\<newline>\<newline>''),
      [GetAsset (py ''http://cdn/a.jpg''),
       Write (py ''./images/2023-05-02-14-30-Art-Day!.jpeg'') (Bytes [255, 216])])"
    by (simp add: eval_model eval_demo capture_observation_info_def month_name_def hour12_def)
  have s20: "save_media_for_page demo_env page20 demo_config =
     (Inr (py ''## Sand\<newline>\<newline>### Mr Jones, 1 May 2023 09:05AM\<newline>\<newline>Digging.\<newline>\<newline>''), [])"
    by (simp add: eval_model eval_demo capture_observation_info_def month_name_def hour12_def)
  have s10: "save_media_for_page demo_env page10 demo_config =
     (Inr (py ''## Song\<newline>\<newline>### Ms Smith, 1 May 2023 09:05AM\<newline>\<newline>Singing.\<newline>\<newline>''),
      [GetAsset (py ''http://cdn/v.mp4''),
       Write (py ''./images/2023-05-01-09-05-Song.mp4'') (Bytes [0, 0, 0, 24])])"
    by (simp add: eval_model eval_demo capture_observation_info_def month_name_def hour12_def)
  have d30: "http_get_doc demo_env (base_url demo_config @ py ''/'' @ py ''30'') = Some page30"
    and d20: "http_get_doc demo_env (base_url demo_config @ py ''/'' @ py ''20'') = Some page20"
    and d10: "http_get_doc demo_env (base_url demo_config @ py ''/'' @ py ''10'') = Some page10"
    by (simp_all add: demo_config_def demo_env_def py_def)
  have n30: "get_next_observation_id demo_env page30 demo_config = Inr (Some (py ''20''))"
    and n20: "get_next_observation_id demo_env page20 demo_config = Inr (Some (py ''10''))"
    and n10: "get_next_observation_id demo_env page10 demo_config = Inr None"
    by (simp_all add: eval_model eval_demo demo_base_def)
  have ne: "py ''30'' \<noteq> []" "py ''20'' \<noteq> []" "py ''10'' \<noteq> []"
    by (simp_all add: py_def)
  have f: "first_observation_id demo_config = py ''30''" "name demo_config = py ''Ada''"
    "base_url demo_config = demo_base" "path_writable demo_env JOURNAL_PATH"
    by (simp_all add: demo_config_def demo_env_def)
  show ?thesis
    unfolding run_def f(1)
    by (simp add: run_loop_step [OF ne(1) d30 s30] run_loop_step [OF ne(2) d20 s20]
        run_loop_step [OF ne(3) d10 s10] n30 n20 n10 run_loop_end f demo_trace_def
        demo_journal_def)
      (simp add: py_def)
qed

section \<open>The journal file\<close>

text \<open>
  Claim C1, as amended. The journal file is written only when the walk completes: a run
  that ends without an exception has written the journal exactly once, as its last
  effect, and the text starts with the heading that names the owner. A run that an
  exception aborts has not written the journal file at all; the sections of the pages
  processed before are lost with the local variable that held them. The flush on abort
  that the claim states does not exist in the program.
\<close>

theorem journal_written_only_on_completion:
  assumes "run env config = Some (r, trace)"
  shows "case r of
           Inl e \<Rightarrow> journal_writes trace = []
         | Inr u \<Rightarrow> (\<exists>md. journal_writes trace = [Text md]
               \<and> last trace = Write JOURNAL_PATH (Text md)
               \<and> prefix (journal_header config) md)"
proof -
  let ?start = "run_loop env config (Some (first_observation_id config))
      (journal_header config) []"
  from assms obtain r0 t0 where y: "?start = Some (r0, t0)"
    by (cases ?start) (auto simp: run_def journal_header_def)
  from run_loop_journal [OF y]
  have j: "journal_writes t0 = []"
    and p: "\<And>md'. r0 = Inr md' \<Longrightarrow> prefix (journal_header config) md'"
    by auto
  from y have run: "run env config =
      (case r0 of Inl e \<Rightarrow> Some (Inl e, t0)
       | Inr md \<Rightarrow> if path_writable env JOURNAL_PATH
           then Some (Inr (), t0 @ [Write JOURNAL_PATH (Text md)])
           else Some (Inl OSError, t0))"
    by (simp add: run_def journal_header_def split: sum.splits)
  show ?thesis
  proof (cases r0)
    case (Inl e)
    with assms run have "r = Inl e" "trace = t0" by auto
    with j show ?thesis by simp
  next
    case (Inr md)
    show ?thesis
    proof (cases "path_writable env JOURNAL_PATH")
      case True
      with assms run Inr have "r = Inr ()" "trace = t0 @ [Write JOURNAL_PATH (Text md)]"
        by auto
      with j p [OF Inr] show ?thesis by simp
    next
      case False
      with assms run Inr have "r = Inl OSError" "trace = t0" by auto
      with j show ?thesis by simp
    qed
  qed
qed

theorem journal_written_only_on_completion_witness:
  "run demo_env demo_config = Some (Inr (), demo_trace)
   \<and> last demo_trace = Write JOURNAL_PATH (Text demo_journal)
   \<and> journal_writes demo_trace = [Text demo_journal]
   \<and> prefix (journal_header demo_config) demo_journal"
proof -
  have l: "last demo_trace = Write JOURNAL_PATH (Text demo_journal)"
    by (simp add: demo_trace_def)
  from journal_written_only_on_completion [OF run_demo]
  obtain md where "journal_writes demo_trace = [Text md]"
    "last demo_trace = Write JOURNAL_PATH (Text md)" "prefix (journal_header demo_config) md"
    by auto
  with l run_demo show ?thesis by simp
qed

theorem journal_lost_on_abort_counterexample:
  "run expired_env demo_config = Some (Inl LoggedOutException, expired_trace)
   \<and> pages_requested expired_trace = [demo_base @ py ''/30'', demo_base @ py ''/20'']
   \<and> http_get_doc expired_env (demo_base @ py ''/30'') = Some page30
   \<and> fst (save_media_for_page expired_env page30 demo_config)
       = Inr (capture_observation_info art_day)
   \<and> journal_writes expired_trace = []"
proof -
  have "pages_requested expired_trace = [demo_base @ py ''/30'', demo_base @ py ''/20'']"
    by (simp add: expired_trace_def)
  moreover have "http_get_doc expired_env (demo_base @ py ''/30'') = Some page30"
    by (simp add: expired_env_def demo_env_def py_def)
  moreover have "fst (save_media_for_page expired_env page30 demo_config)
       = Inr (capture_observation_info art_day)"
    by (simp add: eval_model eval_demo expired_env_def)
  moreover have "journal_writes expired_trace = []"
    by (simp add: expired_trace_def JOURNAL_PATH_def py_def)
  ultimately show ?thesis using run_expired by simp
qed

section \<open>The exit status\<close>

lemma from_env_expired: "from_env expired_env = Inr demo_config"
  by (simp add: from_env_def get_required_env_value_def expired_env_def demo_env_def
      demo_config_def demo_base_def py_def)

lemma from_env_offline: "from_env offline_env = Inr demo_config"
  by (simp add: from_env_def get_required_env_value_def offline_env_def demo_env_def
      demo_config_def demo_base_def py_def)

text \<open>
  Claim C2, as amended. The process exits with status 0 exactly when the configuration
  is complete and the walk runs to its end. In every other case in which it ends, the
  status is 1: through \<open>sys.exit(1)\<close> after the message when the run raised
  \<open>LoggedOutException\<close>, and through the unhandled exception when the run raised any
  other error or the configuration is incomplete. Only \<open>LoggedOutException\<close> has a
  handler.
\<close>

theorem exit_status_of_main:
  assumes "main env = Some (out, trace)"
  shows "(exit_status out = 0 \<or> exit_status out = 1)
     \<and> (exit_status out = 0 \<longleftrightarrow>
          (\<exists>config. from_env env = Inr config \<and> run env config = Some (Inr (), trace)))
     \<and> (out = SystemExit 1 \<longleftrightarrow>
          (\<exists>config t. from_env env = Inr config
             \<and> run env config = Some (Inl LoggedOutException, t)))
     \<and> (\<forall>config e t. from_env env = Inr config \<and> run env config = Some (Inl e, t)
          \<longrightarrow> exit_status out = 1)
     \<and> (\<forall>e. from_env env = Inl e \<longrightarrow> exit_status out = 1)"
proof (cases "from_env env")
  case (Inl e)
  with assms show ?thesis by (auto simp: main_def exit_status_def)
next
  case (Inr config)
  with assms obtain r t where r: "run env config = Some (r, t)"
    by (cases "run env config") (auto simp: main_def)
  show ?thesis
  proof (cases r)
    case ok: (Inr u)
    with assms Inr r show ?thesis by (auto simp: main_def exit_status_def)
  next
    case err: (Inl e)
    show ?thesis
    proof (cases "e = LoggedOutException")
      case True
      with assms Inr r err show ?thesis by (auto simp: main_def exit_status_def)
    next
      case False
      with assms Inr r err show ?thesis by (auto simp: main_def exit_status_def)
    qed
  qed
qed

theorem exit_status_of_main_witness:
  "main expired_env = Some (SystemExit 1,
      expired_trace @ [Print (py ''ERROR: You appear to be logged out. Check cookie value.'')])
   \<and> exit_status (SystemExit 1) = 1
   \<and> run expired_env demo_config = Some (Inl LoggedOutException, expired_trace)"
proof -
  have m: "main expired_env = Some (SystemExit 1,
      expired_trace @ [Print (py ''ERROR: You appear to be logged out. Check cookie value.'')])"
    by (simp add: main_def from_env_expired run_expired)
  from exit_status_of_main [OF m] from_env_expired run_expired
  have "exit_status (SystemExit 1) = 1" by blast
  with m run_expired show ?thesis by simp
qed

theorem exit_status_fetch_error_counterexample:
  "run offline_env demo_config = Some (Inl RequestException, offline_trace)
   \<and> main offline_env = Some (Unhandled RequestException, offline_trace)
   \<and> exit_status (Unhandled RequestException) = 1"
  by (simp add: main_def from_env_offline run_offline exit_status_def)

section \<open>The walk\<close>

lemma find_after_Some: "find_after pat s = Some rest \<Longrightarrow> \<exists>pre. s = pre @ pat @ rest"
proof (induction s)
  case Nil
  then show ?case by (auto split: if_splits)
next
  case (Cons c cs)
  show ?case
  proof (cases "prefix pat (c # cs)")
    case True
    with Cons.prems have "rest = drop (length pat) (c # cs)" by simp
    moreover from True obtain r where "c # cs = pat @ r" by (auto simp: prefix_def)
    ultimately have "c # cs = [] @ pat @ rest" by simp
    then show ?thesis by blast
  next
    case False
    with Cons.prems have "find_after pat cs = Some rest" by simp
    with Cons.IH obtain pre where "cs = pre @ pat @ rest" by blast
    then have "c # cs = (c # pre) @ pat @ rest" by simp
    then show ?thesis by blast
  qed
qed

lemma page_ok_section:
  assumes "page_ok env config oid doc"
  obtains evs where "save_media_for_page env doc config = (Inr (section_of env doc), evs)"
    and "journal_writes evs = []" and "printed evs = []" and "pages_requested evs = []"
proof -
  obtain r evs where s: "save_media_for_page env doc config = (r, evs)"
    by (cases "save_media_for_page env doc config")
  with assms obtain section_md where "r = Inr section_md"
    by (cases r) (auto simp: page_ok_def)
  with s save_media_section have "save_media_for_page env doc config
      = (Inr (section_of env doc), evs)"
    by blast
  with save_media_events [OF s] that show ?thesis by blast
qed

lemma page_ok_metadata:
  assumes "page_ok env config oid doc"
  shows "\<exists>metadata. get_metadata env doc = Inr metadata
     \<and> section_of env doc = capture_observation_info metadata"
proof (cases "get_metadata env doc")
  case (Inl e)
  with assms show ?thesis by (simp add: page_ok_def save_media_for_page_def)
next
  case (Inr metadata)
  then show ?thesis by (simp add: section_of_def)
qed

text \<open>The loop on a chain: it returns, with one section more for every page.\<close>

lemma run_loop_chain:
  "chain_ok env config ((oid, doc) # rest) \<Longrightarrow>
     \<exists>trace'. run_loop env config (Some oid) md trace =
         Some (Inr (md @ concat (map (\<lambda>p. section_of env (snd p)) ((oid, doc) # rest))), trace')
       \<and> printed trace' = printed trace @ map fst ((oid, doc) # rest)
       \<and> pages_requested trace' = pages_requested trace
            @ map (\<lambda>p. base_url config @ py ''/'' @ fst p) ((oid, doc) # rest)
       \<and> journal_writes trace' = journal_writes trace"
proof (induction rest arbitrary: oid doc md trace)
  case Nil
  then have ok: "page_ok env config oid doc" and last: "previous_href doc = None"
    by simp_all
  from ok obtain evs where s: "save_media_for_page env doc config = (Inr (section_of env doc), evs)"
    and e: "journal_writes evs = []" "printed evs = []" "pages_requested evs = []"
    by (rule page_ok_section)
  from ok have o: "oid \<noteq> []"
    and d: "http_get_doc env (base_url config @ py ''/'' @ oid) = Some doc"
    by (simp_all add: page_ok_def)
  from last have n: "get_next_observation_id env doc config = Inr None"
    by (simp add: get_next_observation_id_def)
  show ?case
    by (simp add: run_loop_step [OF o d s] n run_loop_end e)
next
  case (Cons p rest)
  obtain oid' doc' where p: "p = (oid', doc')" by (cases p)
  with Cons.prems have ok: "page_ok env config oid doc"
    and n: "get_next_observation_id env doc config = Inr (Some oid')"
    and ch: "chain_ok env config ((oid', doc') # rest)"
    by simp_all
  from ok obtain evs where s: "save_media_for_page env doc config = (Inr (section_of env doc), evs)"
    and e: "journal_writes evs = []" "printed evs = []" "pages_requested evs = []"
    by (rule page_ok_section)
  from ok have o: "oid \<noteq> []"
    and d: "http_get_doc env (base_url config @ py ''/'' @ oid) = Some doc"
    by (simp_all add: page_ok_def)
  let ?t = "trace @ Print oid # GetDoc (base_url config @ py ''/'' @ oid) # evs"
  from Cons.IH [OF ch, of "md @ section_of env doc" ?t]
  obtain trace' where
    r: "run_loop env config (Some oid') (md @ section_of env doc) ?t =
         Some (Inr ((md @ section_of env doc)
            @ concat (map (\<lambda>p. section_of env (snd p)) ((oid', doc') # rest))), trace')"
    and t: "printed trace' = printed ?t @ map fst ((oid', doc') # rest)"
      "pages_requested trace' = pages_requested ?t
            @ map (\<lambda>p. base_url config @ py ''/'' @ fst p) ((oid', doc') # rest)"
      "journal_writes trace' = journal_writes ?t"
    by blast
  have "run_loop env config (Some oid) md trace =
      run_loop env config (Some oid') (md @ section_of env doc) ?t"
    by (simp add: run_loop_step [OF o d s] n)
  with r t e p show ?case by simp
qed

lemma chain_ok_pages: "chain_ok env config pages \<Longrightarrow> p \<in> set pages \<Longrightarrow>
    page_ok env config (fst p) (snd p)"
  by (induction env config pages rule: chain_ok.induct) auto

text \<open>
  Claim C5. On a chain of pages that the site serves and the program processes without
  error, where the link of every page but the last leads to the next page and the last
  page has no link, the run returns without an exception. It has printed and requested
  exactly the pages of the chain, in their order, and the one text it has written to
  the journal file, as its last effect, is the heading that names the owner followed by
  the sections of the pages in that order, one for each, each the entry of the page's
  metadata.
\<close>

theorem walk_chain:
  assumes "chain_ok env config pages"
    and "fst (hd pages) = first_observation_id config"
    and "path_writable env JOURNAL_PATH"
  shows "\<exists>trace. run env config = Some (Inr (), trace)
     \<and> printed trace = map fst pages
     \<and> pages_requested trace = map (\<lambda>p. base_url config @ py ''/'' @ fst p) pages
     \<and> journal_writes trace =
          [Text (journal_header config @ concat (map (\<lambda>p. section_of env (snd p)) pages))]
     \<and> last trace = Write JOURNAL_PATH
          (Text (journal_header config @ concat (map (\<lambda>p. section_of env (snd p)) pages)))
     \<and> length (map (\<lambda>p. section_of env (snd p)) pages) = length (printed trace)
     \<and> list_all (\<lambda>p. \<exists>metadata. get_metadata env (snd p) = Inr metadata
          \<and> section_of env (snd p) = capture_observation_info metadata) pages"
proof -
  from assms(1) obtain oid doc rest where pages: "pages = (oid, doc) # rest"
    by (cases pages) auto
  with assms(2) have first: "first_observation_id config = oid" by simp
  from run_loop_chain [of env config oid doc rest "journal_header config" "[]"] assms(1) pages
  obtain t where
    r: "run_loop env config (Some oid) (journal_header config) [] =
         Some (Inr (journal_header config
            @ concat (map (\<lambda>p. section_of env (snd p)) pages)), t)"
    and t: "printed t = map fst pages"
      "pages_requested t = map (\<lambda>p. base_url config @ py ''/'' @ fst p) pages"
      "journal_writes t = []"
    by auto
  let ?md = "journal_header config @ concat (map (\<lambda>p. section_of env (snd p)) pages)"
  from r first assms(3) have "run env config = Some (Inr (), t @ [Write JOURNAL_PATH (Text ?md)])"
    by (simp add: run_def journal_header_def)
  moreover have "list_all (\<lambda>p. \<exists>metadata. get_metadata env (snd p) = Inr metadata
          \<and> section_of env (snd p) = capture_observation_info metadata) pages"
    unfolding list_all_iff using chain_ok_pages [OF assms(1)] page_ok_metadata by blast
  ultimately show ?thesis using t by simp
qed

theorem walk_chain_witness:
  "chain_ok demo_env demo_config [(py ''30'', page30), (py ''20'', page20), (py ''10'', page10)]
   \<and> run demo_env demo_config = Some (Inr (), demo_trace)
   \<and> printed demo_trace = [py ''30'', py ''20'', py ''10'']
   \<and> journal_writes demo_trace = [Text demo_journal]"
proof -
  let ?pages = "[(py ''30'', page30), (py ''20'', page20), (py ''10'', page10)]"
  have c: "chain_ok demo_env demo_config ?pages"
    by (simp add: page_ok_def eval_model eval_demo demo_base_def)
  have f: "fst (hd ?pages) = first_observation_id demo_config"
    by (simp add: demo_config_def)
  have w: "path_writable demo_env JOURNAL_PATH"
    by (simp add: demo_env_def)
  from walk_chain [OF c f w] run_demo
  have "printed demo_trace = map fst ?pages" by auto
  moreover have "journal_writes demo_trace = [Text demo_journal]"
    by (simp add: demo_trace_def JOURNAL_PATH_def py_def)
  ultimately show ?thesis using c run_demo by simp
qed

text \<open>
  Claim C8. After a page has been fetched and processed: when it has no \<open>previous\<close>
  link, the loop ends without an exception, with the section of the page appended;
  when the link is there and its URL nowhere holds the base URL followed by a slash,
  the walk aborts with the \<open>RuntimeError\<close> \<open>observation id not found\<close>, the program's
  navigation parse error.
\<close>

theorem navigation_link:
  assumes "oid \<noteq> []"
    and "http_get_doc env (base_url config @ py ''/'' @ oid) = Some doc"
    and "save_media_for_page env doc config = (Inr section_md, evs)"
  shows "(previous_href doc = None \<longrightarrow>
            get_next_observation_id env doc config = Inr None
            \<and> run_loop env config (Some oid) md trace =
                Some (Inr (md @ section_md),
                  trace @ Print oid # GetDoc (base_url config @ py ''/'' @ oid) # evs))
     \<and> (\<forall>href. previous_href doc = Some (Some href)
            \<and> \<not> sublist (base_url config @ py ''/'') href \<longrightarrow>
            get_next_observation_id env doc config
              = Inl (RuntimeError (py ''observation id not found''))
            \<and> run_loop env config (Some oid) md trace =
                Some (Inl (RuntimeError (py ''observation id not found'')),
                  trace @ Print oid # GetDoc (base_url config @ py ''/'' @ oid) # evs))"
proof (intro conjI impI allI)
  assume "previous_href doc = None"
  then show n: "get_next_observation_id env doc config = Inr None"
    by (simp add: get_next_observation_id_def)
  then show "run_loop env config (Some oid) md trace =
      Some (Inr (md @ section_md),
        trace @ Print oid # GetDoc (base_url config @ py ''/'' @ oid) # evs)"
    by (simp add: run_loop_step [OF assms] run_loop_end)
next
  fix href
  assume "previous_href doc = Some (Some href) \<and> \<not> sublist (base_url config @ py ''/'') href"
  then show n: "get_next_observation_id env doc config
      = Inl (RuntimeError (py ''observation id not found''))"
    by (simp add: get_next_observation_id_def find_after_None [symmetric])
  then show "run_loop env config (Some oid) md trace =
      Some (Inl (RuntimeError (py ''observation id not found'')),
        trace @ Print oid # GetDoc (base_url config @ py ''/'' @ oid) # evs)"
    by (simp add: run_loop_step [OF assms])
qed

theorem navigation_link_witness:
  "previous_href page_foreign_link = Some (Some (py ''/s/other/observation/5''))
   \<and> run_loop foreign_env demo_config (Some (py ''10'')) [] [] =
       Some (Inl (RuntimeError (py ''observation id not found'')),
         [Print (py ''10''), GetDoc (demo_base @ py ''/10''), GetAsset (py ''http://cdn/v.mp4''),
          Write (py ''./images/2023-05-01-09-05-Song.mp4'') (Bytes [0, 0, 0, 24])])
   \<and> previous_href page10 = None
   \<and> run_loop demo_env demo_config (Some (py ''10'')) [] [] =
       Some (Inr (py ''## Song\<newline>\<newline>### Ms Smith, 1 May 2023 09:05AM\<newline>\<newline>Singing.\<newline>\<newline>''),
         [Print (py ''10''), GetDoc (demo_base @ py ''/10''), GetAsset (py ''http://cdn/v.mp4''),
          Write (py ''./images/2023-05-01-09-05-Song.mp4'') (Bytes [0, 0, 0, 24])])"
proof -
  have o: "py ''10'' \<noteq> []" by (simp add: py_def)
  have d: "http_get_doc foreign_env (base_url demo_config @ py ''/'' @ py ''10'')
      = Some page_foreign_link"
    by (simp add: foreign_env_def demo_config_def py_def)
  have s: "save_media_for_page foreign_env page_foreign_link demo_config =
     (Inr (py ''## Song\<newline>\<newline>### Ms Smith, 1 May 2023 09:05AM\<newline>\<newline>Singing.\<newline>\<newline>''),
      [GetAsset (py ''http://cdn/v.mp4''),
       Write (py ''./images/2023-05-01-09-05-Song.mp4'') (Bytes [0, 0, 0, 24])])"
    by (simp add: eval_model eval_demo foreign_env_def page_foreign_link_def
        capture_observation_info_def month_name_def hour12_def)
  have h: "previous_href page_foreign_link = Some (Some (py ''/s/other/observation/5''))"
    by (simp add: page_foreign_link_def)
  have "find_after (base_url demo_config @ py ''/'') (py ''/s/other/observation/5'') = None"
    by (simp add: demo_config_def demo_base_def py_def)
  then have n: "\<not> sublist (base_url demo_config @ py ''/'') (py ''/s/other/observation/5'')"
    by (simp add: find_after_None)
  have d': "http_get_doc demo_env (base_url demo_config @ py ''/'' @ py ''10'') = Some page10"
    by (simp add: demo_env_def demo_config_def py_def)
  have s': "save_media_for_page demo_env page10 demo_config =
     (Inr (py ''## Song\<newline>\<newline>### Ms Smith, 1 May 2023 09:05AM\<newline>\<newline>Singing.\<newline>\<newline>''),
      [GetAsset (py ''http://cdn/v.mp4''),
       Write (py ''./images/2023-05-01-09-05-Song.mp4'') (Bytes [0, 0, 0, 24])])"
    by (simp add: eval_model eval_demo capture_observation_info_def month_name_def hour12_def)
  have h': "previous_href page10 = None" by (simp add: page10_def)
  from navigation_link [OF o d s, of "[]" "[]"] h n
  have 1: "run_loop foreign_env demo_config (Some (py ''10'')) [] [] =
       Some (Inl (RuntimeError (py ''observation id not found'')),
         [] @ Print (py ''10'') # GetDoc (base_url demo_config @ py ''/'' @ py ''10'')
           # [GetAsset (py ''http://cdn/v.mp4''),
              Write (py ''./images/2023-05-01-09-05-Song.mp4'') (Bytes [0, 0, 0, 24])])"
    by blast
  from navigation_link [OF o d' s', of "[]" "[]"] h'
  have 2: "run_loop demo_env demo_config (Some (py ''10'')) [] [] =
       Some (Inr ([] @ py ''## Song\<newline>\<newline>### Ms Smith, 1 May 2023 09:05AM\<newline>\<newline>Singing.\<newline>\<newline>''),
         [] @ Print (py ''10'') # GetDoc (base_url demo_config @ py ''/'' @ py ''10'')
           # [GetAsset (py ''http://cdn/v.mp4''),
              Write (py ''./images/2023-05-01-09-05-Song.mp4'') (Bytes [0, 0, 0, 24])])"
    by blast
  from 1 2 h h' show ?thesis
    by (simp add: demo_config_def py_def)
qed

text \<open>
  Claim C10. After a page has been fetched and processed: when the URL of its
  \<open>previous\<close> link holds the base URL followed by a slash, and no digit stands right
  after such an occurrence, the next identifier is found and is the empty string, and
  the loop ends as it does at a page without a link: no exception, no further page
  requested, the section of the page appended. And every identifier that
  \<open>get_next_observation_id\<close> returns, for whatever page, consists of digits only.
\<close>

theorem empty_identifier_ends_walk:
  assumes "oid \<noteq> []"
    and "http_get_doc env (base_url config @ py ''/'' @ oid) = Some doc"
    and "save_media_for_page env doc config = (Inr section_md, evs)"
    and "previous_href doc = Some (Some href)"
    and "sublist (base_url config @ py ''/'') href"
    and "\<forall>pre rest. href = pre @ (base_url config @ py ''/'') @ rest
           \<longrightarrow> rest = [] \<or> \<not> re_digit env (hd rest)"
  shows "get_next_observation_id env doc config = Inr (Some [])
     \<and> run_loop env config (Some oid) md trace =
          Some (Inr (md @ section_md),
            trace @ Print oid # GetDoc (base_url config @ py ''/'' @ oid) # evs)
     \<and> pages_requested (trace @ Print oid # GetDoc (base_url config @ py ''/'' @ oid) # evs)
          = pages_requested trace @ [base_url config @ py ''/'' @ oid]
     \<and> (\<forall>doc' i. get_next_observation_id env doc' config = Inr (Some i)
           \<longrightarrow> (\<forall>c \<in> set i. re_digit env c))"
proof -
  from assms(5) obtain rest where f: "find_after (base_url config @ py ''/'') href = Some rest"
    by (cases "find_after (base_url config @ py ''/'') href") (auto simp: find_after_None)
  then obtain pre where "href = pre @ (base_url config @ py ''/'') @ rest"
    using find_after_Some by blast
  with assms(6) have "rest = [] \<or> \<not> re_digit env (hd rest)" by blast
  then have "takeWhile (re_digit env) rest = []"
    by (cases rest) auto
  with f assms(4) have n: "get_next_observation_id env doc config = Inr (Some [])"
    by (simp add: get_next_observation_id_def)
  then have r: "run_loop env config (Some oid) md trace =
      Some (Inr (md @ section_md),
        trace @ Print oid # GetDoc (base_url config @ py ''/'' @ oid) # evs)"
    by (simp add: run_loop_step [OF assms(1-3)] run_loop_end)
  from save_media_events [OF assms(3)]
  have p: "pages_requested (trace @ Print oid # GetDoc (base_url config @ py ''/'' @ oid) # evs)
      = pages_requested trace @ [base_url config @ py ''/'' @ oid]"
    by simp
  have d: "\<forall>c \<in> set i. re_digit env c"
    if "get_next_observation_id env doc' config = Inr (Some i)" for doc' i
    using that
    by (auto simp: get_next_observation_id_def split: option.splits dest: set_takeWhileD)
  from n r p d show ?thesis by blast
qed

theorem empty_identifier_ends_walk_witness:
  "previous_href page_no_digits = Some (Some (demo_base @ py ''/''))
   \<and> get_next_observation_id no_digits_env page_no_digits demo_config = Inr (Some [])
   \<and> run_loop no_digits_env demo_config (Some (py ''10'')) [] [] =
       Some (Inr (py ''## Song\<newline>\<newline>### Ms Smith, 1 May 2023 09:05AM\<newline>\<newline>Singing.\<newline>\<newline>''),
         [Print (py ''10''), GetDoc (demo_base @ py ''/10''), GetAsset (py ''http://cdn/v.mp4''),
          Write (py ''./images/2023-05-01-09-05-Song.mp4'') (Bytes [0, 0, 0, 24])])"
proof -
  have o: "py ''10'' \<noteq> []" by (simp add: py_def)
  have d: "http_get_doc no_digits_env (base_url demo_config @ py ''/'' @ py ''10'')
      = Some page_no_digits"
    by (simp add: no_digits_env_def demo_config_def py_def)
  have s: "save_media_for_page no_digits_env page_no_digits demo_config =
     (Inr (py ''## Song\<newline>\<newline>### Ms Smith, 1 May 2023 09:05AM\<newline>\<newline>Singing.\<newline>\<newline>''),
      [GetAsset (py ''http://cdn/v.mp4''),
       Write (py ''./images/2023-05-01-09-05-Song.mp4'') (Bytes [0, 0, 0, 24])])"
    by (simp add: eval_model eval_demo no_digits_env_def page_no_digits_def
        capture_observation_info_def month_name_def hour12_def)
  have h: "previous_href page_no_digits = Some (Some (demo_base @ py ''/''))"
    by (simp add: page_no_digits_def)
  have b: "base_url demo_config = demo_base" by (simp add: demo_config_def)
  have c: "sublist (base_url demo_config @ py ''/'') (demo_base @ py ''/'')"
    by (simp add: b)
  have e: "\<forall>pre rest. demo_base @ py ''/'' = pre @ (base_url demo_config @ py ''/'') @ rest
           \<longrightarrow> rest = [] \<or> \<not> re_digit no_digits_env (hd rest)"
  proof (intro allI impI)
    fix pre rest :: pystr
    assume "demo_base @ py ''/'' = pre @ (base_url demo_config @ py ''/'') @ rest"
    then have "length (demo_base @ py ''/'')
        = length (pre @ (demo_base @ py ''/'') @ rest)"
      by (simp only: b)
    then have "rest = []" by simp
    then show "rest = [] \<or> \<not> re_digit no_digits_env (hd rest)" by simp
  qed
  from empty_identifier_ends_walk [OF o d s h c e, of "[]" "[]"] h
  show ?thesis by (simp add: demo_config_def py_def)
qed

end
